theory Spec2Isabelle
  imports Main
begin

section \<open>Protocol insolvency query: the host objects\<close>

text \<open>
  The module \<^verbatim>\<open>protocol_insolvency_query.py\<close> is a filter pipeline over objects of a
  host analysis platform. An object is modelled by the outcomes of the methods the module
  calls on it. A call that the module guards with \<^verbatim>\<open>try\<close>/\<^verbatim>\<open>except Exception\<close>
  either raises or returns; \<open>Raised\<close> stands for any exception of the call or of the use
  the module makes of its result (a \<^verbatim>\<open>None\<close> where a string or a list is needed). On
  the instructions that \<^verbatim>\<open>query\<close> filters, \<open>callee_names\<close> is read outside of any
  handler and only returns. The representation is immutable: calling a method twice gives
  the same outcome.
\<close>

datatype 'a outcome = Raised | Returned 'a

text \<open>A dataflow point exposes its source text.\<close>

datatype df_point = DfPoint (dfp_source_code: "string outcome")

text \<open>
  \<^verbatim>\<open>hasattr(amount_arg, 'has_global_df')\<close> is false for \<open>Absent\<close>; otherwise the
  method is there and calling it raises or returns a truth value.
\<close>

datatype taint_query = Absent | Present "bool outcome"

datatype argument = Argument
  (backward_df: "df_point list outcome")
  (arg_source_code: "string outcome")
  (has_global_df: taint_query)

datatype MethodProp = PUBLIC | EXTERNAL | INTERNAL | PRIVATE | IS_PURE | IS_VIEW | IS_PAYABLE

record function_meta =
  name :: string
  properties :: "MethodProp list"
  modifier_names :: "string list"
  arg_types :: "string list"

text \<open>
  A successor of an instruction, as \<^verbatim>\<open>has_post_transfer_revert_guard\<close> sees it. Both
  \<^verbatim>\<open>callee_names()\<close> and \<^verbatim>\<open>source_code()\<close> are called on it under a handler, and
  either may raise.
\<close>

datatype next_instr = NextInstr
  (next_callee_names: "string list outcome")
  (next_source_code: "string outcome")

text \<open>
  \<open>get_parent\<close> raises, returns \<^verbatim>\<open>None\<close> or returns the owning function;
  \<open>next_instructions\<close> raises or returns the successors in control order.
\<close>

datatype instruction = Instruction
  (get_args: "argument list outcome")
  (callee_names: "string list")
  (ins_source_code: "string outcome")
  (get_parent: "function_meta option outcome")
  (next_instructions: "next_instr list outcome")

datatype func = Function (meta: function_meta) (fn_instructions: "instruction list")

section \<open>Python string operations\<close>

text \<open>
  Source text is taken to be ASCII. \<open>lower\<close> is \<^verbatim>\<open>str.lower\<close>, \<open>str_in p s\<close> is
  \<^verbatim>\<open>p in s\<close>, \<open>strip\<close> is \<^verbatim>\<open>str.strip()\<close> with the ASCII characters for which
  \<^verbatim>\<open>str.isspace\<close> holds.
\<close>

definition lower_char :: "char \<Rightarrow> char" where
  "lower_char c =
     (case map_of (zip ''ABCDEFGHIJKLMNOPQRSTUVWXYZ'' ''abcdefghijklmnopqrstuvwxyz'') c of
        None \<Rightarrow> c
      | Some d \<Rightarrow> d)"

definition lower :: "string \<Rightarrow> string" where
  "lower s = map lower_char s"

fun startswith :: "string \<Rightarrow> string \<Rightarrow> bool" where
  "startswith s [] = True"
| "startswith [] (p # ps) = False"
| "startswith (c # cs) (p # ps) = (c = p \<and> startswith cs ps)"

fun str_in :: "string \<Rightarrow> string \<Rightarrow> bool" where
  "str_in p [] = (p = [])"
| "str_in p (c # cs) = (startswith (c # cs) p \<or> str_in p cs)"

definition is_space :: "char \<Rightarrow> bool" where
  "is_space c \<longleftrightarrow>
     c \<in> set [CHR 0x09, CHR 0x0A, CHR 0x0B, CHR 0x0C, CHR 0x0D,
              CHR 0x1C, CHR 0x1D, CHR 0x1E, CHR 0x1F, CHR 0x20]"

definition strip :: "string \<Rightarrow> string" where
  "strip s = rev (dropWhile is_space (rev (dropWhile is_space s)))"

section \<open>The five heuristics\<close>

subsection \<open>\<^verbatim>\<open>lacks_reserve_check\<close>\<close>

definition reserve_check_patterns :: "string list" where
  "reserve_check_patterns =
     [''balanceOf'', ''getBalance'', ''available'', ''liquidity'', ''reserves'',
      ''totalAssets'', ''getReserves'']"

text \<open>
  The loop over the dataflow points. A point whose \<open>source_code\<close> raises is skipped by
  the inner handler; the first point with a pattern and a \<^verbatim>\<open>this\<close> returns \<open>False\<close>;
  falling off the end returns \<open>True\<close>.
\<close>

fun scan_backward_flow :: "df_point list \<Rightarrow> bool" where
  "scan_backward_flow [] = True"
| "scan_backward_flow (df_point # rest) =
     (case dfp_source_code df_point of
        Raised \<Rightarrow> scan_backward_flow rest
      | Returned code \<Rightarrow>
          (let source = lower code
           in if \<exists>pattern \<in> set reserve_check_patterns. str_in (lower pattern) source
              then if str_in ''address(this)'' code \<or> str_in ''this'' code
                   then False
                   else scan_backward_flow rest
              else scan_backward_flow rest))"

definition lacks_reserve_check :: "instruction \<Rightarrow> bool" where
  "lacks_reserve_check ins =
     (case get_args ins of
        Raised \<Rightarrow> True
      | Returned transfer_args \<Rightarrow>
          (if length transfer_args = 0 then False
           else let amount_arg = last transfer_args
                in (case backward_df amount_arg of
                      Raised \<Rightarrow> True
                    | Returned backward_flow \<Rightarrow> scan_backward_flow backward_flow)))"

subsection \<open>\<^verbatim>\<open>has_global_df_in_amount\<close>\<close>

definition has_global_df_in_amount :: "instruction \<Rightarrow> bool" where
  "has_global_df_in_amount ins =
     (case get_args ins of
        Raised \<Rightarrow> True
      | Returned transfer_args \<Rightarrow>
          (if length transfer_args = 0 then False
           else let amount_arg = last transfer_args
                in (case has_global_df amount_arg of
                      Absent \<Rightarrow> True
                    | Present Raised \<Rightarrow> True
                    | Present (Returned b) \<Rightarrow> b)))"

subsection \<open>\<^verbatim>\<open>is_protected_by_safe_wrapper\<close>\<close>

definition safe_patterns :: "string list" where
  "safe_patterns = [''safetransfer'', ''safewithdraw'', ''safemint'', ''safeburn'']"

definition is_protected_by_safe_wrapper :: "instruction \<Rightarrow> bool" where
  "is_protected_by_safe_wrapper ins =
     (case get_parent ins of
        Raised \<Rightarrow> False
      | Returned None \<Rightarrow> False
      | Returned (Some parent_function) \<Rightarrow>
          (let func_name = lower (name parent_function)
           in \<exists>pattern \<in> set safe_patterns. str_in pattern func_name))"

subsection \<open>\<^verbatim>\<open>has_post_transfer_revert_guard\<close>\<close>

text \<open>
  The loop over the successors, inside the outer \<^verbatim>\<open>try\<close>. \<^verbatim>\<open>callee_names()\<close> is
  called before the inner \<^verbatim>\<open>try\<close>: when it raises, the loop raises. A successor that
  calls \<^verbatim>\<open>require\<close> or \<^verbatim>\<open>assert\<close> and whose text mentions \<^verbatim>\<open>success\<close> or
  \<^verbatim>\<open>ok\<close> returns \<open>True\<close>; one whose \<open>source_code\<close> raises is skipped by the inner
  handler; falling off the end returns \<open>False\<close>.
\<close>

fun scan_next_instructions :: "next_instr list \<Rightarrow> bool outcome" where
  "scan_next_instructions [] = Returned False"
| "scan_next_instructions (next_instr # rest) =
     (case next_callee_names next_instr of
        Raised \<Rightarrow> Raised
      | Returned instr_callees \<Rightarrow>
          (if ''require'' \<in> set instr_callees \<or> ''assert'' \<in> set instr_callees
           then (case next_source_code next_instr of
                   Raised \<Rightarrow> scan_next_instructions rest
                 | Returned source \<Rightarrow>
                     if str_in ''success'' (lower source) \<or> str_in ''ok'' (lower source)
                     then Returned True
                     else scan_next_instructions rest)
           else scan_next_instructions rest))"

text \<open>
  The outer handler turns a raise of \<open>next_instructions\<close> or of the loop into \<open>False\<close>.
\<close>

definition has_post_transfer_revert_guard :: "instruction \<Rightarrow> bool" where
  "has_post_transfer_revert_guard ins =
     (case next_instructions ins of
        Raised \<Rightarrow> False
      | Returned succs \<Rightarrow>
          (case scan_next_instructions succs of
             Raised \<Rightarrow> False
           | Returned found \<Rightarrow> found))"

subsection \<open>\<^verbatim>\<open>is_amount_constant_zero\<close>\<close>

definition is_amount_constant_zero :: "instruction \<Rightarrow> bool" where
  "is_amount_constant_zero ins =
     (case get_args ins of
        Raised \<Rightarrow> False
      | Returned transfer_args \<Rightarrow>
          (if length transfer_args = 0 then False
           else let amount_arg = last transfer_args
                in (case arg_source_code amount_arg of
                      Raised \<Rightarrow> False
                    | Returned source \<Rightarrow>
                        if strip source = ''0'' \<or> str_in ''uint256).max'' source
                        then True
                        else False)))"

section \<open>The query\<close>

text \<open>
  The query combinators (\<^verbatim>\<open>Functions()\<close>, the selections on it, \<^verbatim>\<open>instructions\<close>,
  \<^verbatim>\<open>exec\<close>, \<^verbatim>\<open>filter\<close>) belong to the platform, not to the module. They are
  modelled from sections 4.1, 4.2 and 6 of the specification as pure, order-preserving
  selections over the function list of the contract; \<^verbatim>\<open>filter\<close> is \<^const>\<open>filter\<close>.
\<close>

text \<open>
  Modelled from the spec: \<^verbatim>\<open>with_one_property\<close> of the platform, absent from the
  module; it keeps the functions that have at least one of the properties.
\<close>

definition with_one_property :: "MethodProp list \<Rightarrow> func list \<Rightarrow> func list" where
  "with_one_property ps fs = filter (\<lambda>f. \<exists>p \<in> set ps. p \<in> set (properties (meta f))) fs"

text \<open>
  Modelled from the spec: \<^verbatim>\<open>without_properties\<close> of the platform, absent from the
  module; it keeps the functions that have none of the properties.
\<close>

definition without_properties :: "MethodProp list \<Rightarrow> func list \<Rightarrow> func list" where
  "without_properties ps fs = filter (\<lambda>f. \<forall>p \<in> set ps. p \<notin> set (properties (meta f))) fs"

text \<open>
  Modelled from the spec: \<^verbatim>\<open>without_modifier_names\<close> of the platform, absent from the
  module; it keeps the functions that carry none of the modifiers.
\<close>

definition without_modifier_names :: "string list \<Rightarrow> func list \<Rightarrow> func list" where
  "without_modifier_names ms fs =
     filter (\<lambda>f. \<forall>m \<in> set ms. m \<notin> set (modifier_names (meta f))) fs"

text \<open>
  Modelled from the spec: \<^verbatim>\<open>with_one_of_the_names\<close> of the platform, absent from the
  module; it keeps the functions whose name is one of the names.
\<close>

definition with_one_of_the_names :: "string list \<Rightarrow> func list \<Rightarrow> func list" where
  "with_one_of_the_names ns fs = filter (\<lambda>f. name (meta f) \<in> set ns) fs"

text \<open>
  Modelled from the spec: \<^verbatim>\<open>with_arg_type\<close> of the platform, absent from the module;
  it keeps the functions that declare a parameter of the type.
\<close>

definition with_arg_type :: "string \<Rightarrow> func list \<Rightarrow> func list" where
  "with_arg_type t fs = filter (\<lambda>f. t \<in> set (arg_types (meta f))) fs"

text \<open>
  Modelled from the spec: \<^verbatim>\<open>instructions\<close> of the platform, absent from the module;
  it lowers the functions to their instructions, function after function.
\<close>

definition instructions :: "func list \<Rightarrow> instruction list" where
  "instructions fs = concat (map fn_instructions fs)"

text \<open>
  Modelled from the spec: \<^verbatim>\<open>exec\<close> of the platform, absent from the module; bounded
  execution keeps the first \<open>limit_count\<close> elements and truncates past the bound.
\<close>

definition exec :: "nat \<Rightarrow> 'a list \<Rightarrow> 'a list" where
  "exec limit_count xs = take limit_count xs"

text \<open>
  \<^verbatim>\<open>query\<close> with its two bounds as parameters; the module fixes them to 500 and 1000.
  The argument is \<^verbatim>\<open>Functions()\<close>, the functions of the contract under analysis.
\<close>

definition candidate_functions :: "nat \<Rightarrow> func list \<Rightarrow> func list" where
  "candidate_functions function_cap all_functions =
     exec function_cap
       (with_arg_type ''uint256''
         (with_one_of_the_names
            [''withdraw'', ''redeem'', ''burn'', ''transferFrom'', ''safeWithdraw'',
             ''exitMarket'', ''borrow'', ''redeemShares'', ''unstake'', ''claim'',
             ''liquidate'', ''seize'', ''exit'', ''removeLiquidity'']
           (without_modifier_names
              [''onlyOwner'', ''nonReentrant'', ''whenNotPaused'', ''lock'']
             (without_properties [IS_PURE, IS_VIEW]
               (with_one_property [PUBLIC, EXTERNAL] all_functions)))))"

definition transfer_and_burn_instructions ::
    "nat \<Rightarrow> nat \<Rightarrow> func list \<Rightarrow> instruction list" where
  "transfer_and_burn_instructions function_cap instruction_cap all_functions =
     filter
       (\<lambda>ins. \<exists>callee \<in> set [''transfer'', ''burn'', ''transferFrom'',
                               ''safeTransferFrom'', ''_burn''].
                 callee \<in> set (callee_names ins))
       (exec instruction_cap
          (instructions (candidate_functions function_cap all_functions)))"

definition vulnerable_instructions ::
    "nat \<Rightarrow> nat \<Rightarrow> func list \<Rightarrow> instruction list" where
  "vulnerable_instructions function_cap instruction_cap all_functions =
     filter (\<lambda>ins. lacks_reserve_check ins \<and> has_global_df_in_amount ins)
       (transfer_and_burn_instructions function_cap instruction_cap all_functions)"

definition query_with_caps :: "nat \<Rightarrow> nat \<Rightarrow> func list \<Rightarrow> instruction list" where
  "query_with_caps function_cap instruction_cap all_functions =
     filter
       (\<lambda>ins. \<not> is_protected_by_safe_wrapper ins \<and>
              \<not> has_post_transfer_revert_guard ins \<and>
              \<not> is_amount_constant_zero ins)
       (vulnerable_instructions function_cap instruction_cap all_functions)"

definition query :: "func list \<Rightarrow> instruction list" where
  "query all_functions = query_with_caps 500 1000 all_functions"

section \<open>Reserve-check evidence\<close>

text \<open>
  The condition under which the loop of \<open>lacks_reserve_check\<close> returns at a point: the
  source text can be read, its lowercase contains a lowercased pattern, and the text itself
  contains \<^verbatim>\<open>address(this)\<close> or \<^verbatim>\<open>this\<close>.
\<close>

definition reserve_evidence :: "df_point \<Rightarrow> bool" where
  "reserve_evidence p \<longleftrightarrow>
     (\<exists>code. dfp_source_code p = Returned code \<and>
        (\<exists>pattern \<in> set reserve_check_patterns. str_in (lower pattern) (lower code)) \<and>
        (str_in ''address(this)'' code \<or> str_in ''this'' code))"

text \<open>
  The condition under which the loop of \<open>has_post_transfer_revert_guard\<close> returns \<open>True\<close>
  at a successor.
\<close>

definition is_revert_guard :: "next_instr \<Rightarrow> bool" where
  "is_revert_guard s \<longleftrightarrow>
     (\<exists>names source.
        next_callee_names s = Returned names \<and>
        (''require'' \<in> set names \<or> ''assert'' \<in> set names) \<and>
        next_source_code s = Returned source \<and>
        (str_in ''success'' (lower source) \<or> str_in ''ok'' (lower source)))"

text \<open>
  The specification's reading of the second condition: the point "refers to the contract's
  own identity (self-balance), not an arbitrary address". In Solidity the contract refers
  to itself by the keyword \<^verbatim>\<open>this\<close>, as in \<^verbatim>\<open>address(this)\<close>; it is a
  self-reference where it stands as a word of its own, not inside a longer identifier.
  \<open>keyword_this_from inside s\<close> scans \<open>s\<close>, \<open>inside\<close> telling whether the character
  before was part of an identifier.
\<close>

definition ident_char :: "char \<Rightarrow> bool" where
  "ident_char c \<longleftrightarrow>
     c \<in> set ''abcdefghijklmnopqrstuvwxyzABCDEFGHIJKLMNOPQRSTUVWXYZ0123456789_$''"

fun keyword_this_from :: "bool \<Rightarrow> string \<Rightarrow> bool" where
  "keyword_this_from inside [] = False"
| "keyword_this_from inside (c # cs) =
     ((\<not> inside \<and> startswith (c # cs) ''this'' \<and>
       (case drop 4 (c # cs) of [] \<Rightarrow> True | d # _ \<Rightarrow> \<not> ident_char d)) \<or>
      keyword_this_from (ident_char c) cs)"

definition spec_self_reference :: "string \<Rightarrow> bool" where
  "spec_self_reference code = keyword_this_from False code"

section \<open>Example inputs\<close>

text \<open>A public \<^verbatim>\<open>withdraw(uint256)\<close> without modifiers passes the candidate selection.\<close>

definition withdraw_meta :: function_meta where
  "withdraw_meta =
     \<lparr>name = ''withdraw'', properties = [PUBLIC], modifier_names = [],
      arg_types = [''uint256'']\<rparr>"

text \<open>A \<^verbatim>\<open>transfer\<close> call without arguments.\<close>

definition bare_transfer :: instruction where
  "bare_transfer =
     Instruction (Returned []) [''transfer''] (Returned ''token.transfer()'')
       (Returned (Some withdraw_meta)) (Returned [])"

text \<open>
  A \<^verbatim>\<open>transfer\<close> call with the given owning function and argument list, and no
  successors.
\<close>

definition transfer_call ::
    "function_meta option outcome \<Rightarrow> argument list outcome \<Rightarrow> instruction" where
  "transfer_call parent args =
     Instruction args [''transfer''] (Returned ''token.transfer(msg.sender, amount)'')
       parent (Returned [])"

definition recipient :: argument where
  "recipient = Argument (Returned []) (Returned ''msg.sender'') Absent"

text \<open>An amount argument with the given source text and taint capability, and an empty trace.\<close>

definition amount :: "string outcome \<Rightarrow> taint_query \<Rightarrow> argument" where
  "amount text taint = Argument (Returned []) text taint"

text \<open>\<^verbatim>\<open>token.transfer(msg.sender, 0)\<close> inside \<^verbatim>\<open>withdraw\<close>.\<close>

definition zero_transfer :: instruction where
  "zero_transfer =
     transfer_call (Returned (Some withdraw_meta))
       (Returned [recipient, amount (Returned ''0'') (Present (Returned True))])"

text \<open>
  An external \<^verbatim>\<open>safeWithdraw(uint256)\<close> and an unguarded transfer of a caller-chosen
  amount inside it.
\<close>

definition safe_withdraw_meta :: function_meta where
  "safe_withdraw_meta =
     \<lparr>name = ''safeWithdraw'', properties = [EXTERNAL], modifier_names = [],
      arg_types = [''uint256'']\<rparr>"

definition wrapped_transfer :: instruction where
  "wrapped_transfer =
     transfer_call (Returned (Some safe_withdraw_meta))
       (Returned [recipient, amount (Returned ''amount'') (Present (Returned True))])"

text \<open>
  A transfer followed by \<^verbatim>\<open>require(token.balanceOf(x) > 0)\<close>, and a transfer whose
  successors cannot be enumerated.
\<close>

definition balance_require :: next_instr where
  "balance_require =
     NextInstr (Returned [''require'', ''balanceOf''])
       (Returned ''require(token.balanceOf(x) > 0)'')"

definition guarded_transfer :: instruction where
  "guarded_transfer =
     Instruction (Returned [recipient, amount (Returned ''amount'') (Present (Returned True))])
       [''transfer''] (Returned ''token.transfer(msg.sender, amount)'')
       (Returned (Some withdraw_meta)) (Returned [balance_require])"

definition unlisted_transfer :: instruction where
  "unlisted_transfer =
     Instruction (Returned [recipient, amount (Returned ''amount'') (Present (Returned True))])
       [''transfer''] (Returned ''token.transfer(msg.sender, amount)'')
       (Returned (Some withdraw_meta)) Raised"

text \<open>
  A transfer followed by a successor whose \<^verbatim>\<open>callee_names()\<close> raises and then by
  \<^verbatim>\<open>require(success)\<close>.
\<close>

definition opaque_successor :: next_instr where
  "opaque_successor = NextInstr Raised (Returned ''emit Withdrawn(msg.sender, amount)'')"

definition success_require :: next_instr where
  "success_require = NextInstr (Returned [''require'']) (Returned ''require(success)'')"

definition interrupted_transfer :: instruction where
  "interrupted_transfer =
     Instruction (Returned [recipient, amount (Returned ''amount'') (Present (Returned True))])
       [''transfer''] (Returned ''token.transfer(msg.sender, amount)'')
       (Returned (Some withdraw_meta)) (Returned [opaque_successor, success_require])"

text \<open>
  A transfer inside \<^verbatim>\<open>withdraw\<close> whose amount is caller-controlled and has the given
  backward trace.
\<close>

definition traced_transfer :: "df_point list outcome \<Rightarrow> instruction" where
  "traced_transfer flow =
     transfer_call (Returned (Some withdraw_meta))
       (Returned [recipient, Argument flow (Returned ''amount'') (Present (Returned True))])"

text \<open>
  An external \<^verbatim>\<open>redeem(address, uint256)\<close> with an unguarded \<^verbatim>\<open>transferFrom\<close>, and
  a contract whose functions, besides \<^verbatim>\<open>withdraw\<close> and \<^verbatim>\<open>redeem\<close>, each fail one
  condition of the candidate selection.
\<close>

definition redeem_meta :: function_meta where
  "redeem_meta =
     \<lparr>name = ''redeem'', properties = [EXTERNAL, IS_PAYABLE], modifier_names = [],
      arg_types = [''address'', ''uint256'']\<rparr>"

definition redeem_transfer :: instruction where
  "redeem_transfer =
     Instruction
       (Returned [recipient,
                  Argument (Returned [DfPoint (Returned ''shares'')]) (Returned ''shares'')
                    (Present (Returned True))])
       [''transferFrom''] (Returned ''token.transferFrom(vault, msg.sender, shares)'')
       (Returned (Some redeem_meta)) (Returned [])"

definition sample_functions :: "func list" where
  "sample_functions =
     [Function withdraw_meta [traced_transfer (Returned [])],
      Function (withdraw_meta\<lparr>modifier_names := [''nonReentrant'']\<rparr>) [],
      Function (withdraw_meta\<lparr>properties := [PUBLIC, IS_VIEW]\<rparr>) [],
      Function (withdraw_meta\<lparr>properties := [INTERNAL]\<rparr>) [],
      Function (withdraw_meta\<lparr>name := ''deposit''\<rparr>) [],
      Function (withdraw_meta\<lparr>arg_types := [''address'']\<rparr>) [],
      Function redeem_meta [redeem_transfer]]"

section \<open>Properties of the pipeline\<close>

text \<open>Whatever \<^verbatim>\<open>query\<close> returns has passed every stage.\<close>

lemma query_subset_vulnerable:
  "ins \<in> set (query_with_caps fc ic fs) \<Longrightarrow>
     lacks_reserve_check ins \<and> has_global_df_in_amount ins \<and>
     \<not> is_protected_by_safe_wrapper ins \<and> \<not> has_post_transfer_revert_guard ins \<and>
     \<not> is_amount_constant_zero ins"
  by (simp add: query_with_caps_def vulnerable_instructions_def)

text \<open>
  C2. An instruction whose argument list is empty is reported as having a reserve check
  (\<open>lacks_reserve_check\<close> is \<open>False\<close>) and as not externally influenced
  (\<open>has_global_df_in_amount\<close> is \<open>False\<close>); hence it is never among the findings that
  \<open>query\<close> returns, whatever the contract.
\<close>

theorem zero_arguments_never_flagged:
  assumes "get_args ins = Returned []"
  shows "lacks_reserve_check ins = False \<and> has_global_df_in_amount ins = False \<and>
         ins \<notin> set (query all_functions)"
proof -
  have l: "lacks_reserve_check ins = False"
    using assms by (simp add: lacks_reserve_check_def)
  have g: "has_global_df_in_amount ins = False"
    using assms by (simp add: has_global_df_in_amount_def)
  have "ins \<notin> set (query all_functions)"
    using l query_subset_vulnerable [of ins 500 1000 all_functions]
    by (auto simp: query_def)
  with l g show ?thesis by simp
qed

text \<open>
  The argument-free \<^verbatim>\<open>transfer\<close> inside \<^verbatim>\<open>withdraw\<close> reaches the third stage and
  is dropped there.
\<close>

theorem zero_arguments_never_flagged_witness:
  "get_args bare_transfer = Returned [] \<and>
   bare_transfer \<in> set (transfer_and_burn_instructions 500 1000
                          [Function withdraw_meta [bare_transfer]]) \<and>
   lacks_reserve_check bare_transfer = False \<and>
   has_global_df_in_amount bare_transfer = False \<and>
   bare_transfer \<notin> set (query [Function withdraw_meta [bare_transfer]])"
proof -
  have a: "get_args bare_transfer = Returned []"
    by (simp add: bare_transfer_def)
  have b: "bare_transfer \<in> set (transfer_and_burn_instructions 500 1000
                          [Function withdraw_meta [bare_transfer]])"
    by (simp add: transfer_and_burn_instructions_def candidate_functions_def exec_def
        instructions_def with_arg_type_def with_one_of_the_names_def
        without_modifier_names_def without_properties_def with_one_property_def
        withdraw_meta_def bare_transfer_def)
  show ?thesis
    using a b zero_arguments_never_flagged [OF a, of "[Function withdraw_meta [bare_transfer]]"]
    by simp
qed

lemmas pipeline_defs =
  query_def query_with_caps_def vulnerable_instructions_def
  transfer_and_burn_instructions_def candidate_functions_def exec_def
  instructions_def with_arg_type_def with_one_of_the_names_def
  without_modifier_names_def without_properties_def with_one_property_def

text \<open>\<open>lower_char\<close> as a chain of tests, for evaluating \<open>lower\<close> on a literal.\<close>

lemma lower_char_table:
  "lower_char c =
     (if c = CHR ''A'' then CHR ''a'' else if c = CHR ''B'' then CHR ''b''
      else if c = CHR ''C'' then CHR ''c'' else if c = CHR ''D'' then CHR ''d''
      else if c = CHR ''E'' then CHR ''e'' else if c = CHR ''F'' then CHR ''f''
      else if c = CHR ''G'' then CHR ''g'' else if c = CHR ''H'' then CHR ''h''
      else if c = CHR ''I'' then CHR ''i'' else if c = CHR ''J'' then CHR ''j''
      else if c = CHR ''K'' then CHR ''k'' else if c = CHR ''L'' then CHR ''l''
      else if c = CHR ''M'' then CHR ''m'' else if c = CHR ''N'' then CHR ''n''
      else if c = CHR ''O'' then CHR ''o'' else if c = CHR ''P'' then CHR ''p''
      else if c = CHR ''Q'' then CHR ''q'' else if c = CHR ''R'' then CHR ''r''
      else if c = CHR ''S'' then CHR ''s'' else if c = CHR ''T'' then CHR ''t''
      else if c = CHR ''U'' then CHR ''u'' else if c = CHR ''V'' then CHR ''v''
      else if c = CHR ''W'' then CHR ''w'' else if c = CHR ''X'' then CHR ''x''
      else if c = CHR ''Y'' then CHR ''y'' else if c = CHR ''Z'' then CHR ''z''
      else c)"
  by (simp add: lower_char_def)

text \<open>
  C4. For an instruction with at least one argument, \<open>has_global_df_in_amount\<close> is
  \<open>False\<close> exactly when the platform's \<open>has_global_df\<close> on the last argument returns
  \<open>False\<close>; it is \<open>True\<close> when that call returns \<open>True\<close>, when the argument has no
  such method, and when the call raises. It is also \<open>True\<close> when \<open>get_args\<close> raises.
\<close>

theorem amount_taint_fail_closed:
  "(get_args ins = Raised \<longrightarrow> has_global_df_in_amount ins = True) \<and>
   (get_args ins = Returned args \<and> args \<noteq> [] \<longrightarrow>
      (has_global_df_in_amount ins = False \<longleftrightarrow>
         has_global_df (last args) = Present (Returned False)) \<and>
      (has_global_df (last args) = Present (Returned True) \<longrightarrow>
         has_global_df_in_amount ins = True) \<and>
      (has_global_df (last args) = Absent \<longrightarrow> has_global_df_in_amount ins = True) \<and>
      (has_global_df (last args) = Present Raised \<longrightarrow> has_global_df_in_amount ins = True))"
  by (auto simp: has_global_df_in_amount_def split: taint_query.splits outcome.splits)

text \<open>One instruction for each branch: a failing \<open>get_args\<close>, and the four taint outcomes.\<close>

theorem amount_taint_fail_closed_witness:
  "has_global_df_in_amount (transfer_call (Returned None) Raised) = True \<and>
   has_global_df_in_amount
     (transfer_call (Returned None)
        (Returned [recipient, amount (Returned ''1 ether'') (Present (Returned False))])) = False \<and>
   has_global_df_in_amount
     (transfer_call (Returned None)
        (Returned [recipient, amount (Returned ''amount'') (Present (Returned True))])) = True \<and>
   has_global_df_in_amount
     (transfer_call (Returned None)
        (Returned [recipient, amount (Returned ''amount'') Absent])) = True \<and>
   has_global_df_in_amount
     (transfer_call (Returned None)
        (Returned [recipient, amount (Returned ''amount'') (Present Raised)])) = True"
  using amount_taint_fail_closed [of "transfer_call (Returned None) Raised"]
    amount_taint_fail_closed [of "transfer_call (Returned None)
        (Returned [recipient, amount (Returned ''1 ether'') (Present (Returned False))])"
        "[recipient, amount (Returned ''1 ether'') (Present (Returned False))]"]
    amount_taint_fail_closed [of "transfer_call (Returned None)
        (Returned [recipient, amount (Returned ''amount'') (Present (Returned True))])"
        "[recipient, amount (Returned ''amount'') (Present (Returned True))]"]
    amount_taint_fail_closed [of "transfer_call (Returned None)
        (Returned [recipient, amount (Returned ''amount'') Absent])"
        "[recipient, amount (Returned ''amount'') Absent]"]
    amount_taint_fail_closed [of "transfer_call (Returned None)
        (Returned [recipient, amount (Returned ''amount'') (Present Raised)])"
        "[recipient, amount (Returned ''amount'') (Present Raised)]"]
  by (simp add: transfer_call_def amount_def)

text \<open>
  C5. When the source text of the last argument is exactly \<^verbatim>\<open>0\<close>,
  \<open>is_amount_constant_zero\<close> is \<open>True\<close> and the instruction is not among the findings
  of \<open>query\<close>, whatever the other stages say. When \<open>get_args\<close> or the argument's
  \<open>source_code\<close> raises, \<open>is_amount_constant_zero\<close> is \<open>False\<close>, so this rule keeps
  the finding.
\<close>

theorem constant_zero_amount_excluded:
  "(get_args ins = Returned args \<and> args \<noteq> [] \<and>
      arg_source_code (last args) = Returned ''0'' \<longrightarrow>
      is_amount_constant_zero ins = True \<and> ins \<notin> set (query all_functions)) \<and>
   (get_args ins = Raised \<or>
    (get_args ins = Returned args \<and> args \<noteq> [] \<and> arg_source_code (last args) = Raised) \<longrightarrow>
      is_amount_constant_zero ins = False)"
proof -
  have "is_amount_constant_zero ins"
    if "get_args ins = Returned args" "args \<noteq> []" "arg_source_code (last args) = Returned ''0''"
    using that by (simp add: is_amount_constant_zero_def strip_def is_space_def)
  moreover have "ins \<notin> set (query all_functions)" if "is_amount_constant_zero ins"
    using that query_subset_vulnerable [of ins 500 1000 all_functions]
    by (auto simp: query_def)
  moreover have "\<not> is_amount_constant_zero ins" if "get_args ins = Raised"
    using that by (simp add: is_amount_constant_zero_def)
  moreover have "\<not> is_amount_constant_zero ins"
    if "get_args ins = Returned args" "args \<noteq> []" "arg_source_code (last args) = Raised"
    using that by (simp add: is_amount_constant_zero_def)
  ultimately show ?thesis by blast
qed

text \<open>
  \<^verbatim>\<open>token.transfer(msg.sender, 0)\<close> passes the first three stages and the other two
  exclusions, and is removed by the constant-zero rule alone; the two failing reads keep
  the finding.
\<close>

theorem constant_zero_amount_excluded_witness:
  "zero_transfer \<in> set (vulnerable_instructions 500 1000
                          [Function withdraw_meta [zero_transfer]]) \<and>
   \<not> is_protected_by_safe_wrapper zero_transfer \<and>
   \<not> has_post_transfer_revert_guard zero_transfer \<and>
   is_amount_constant_zero zero_transfer = True \<and>
   zero_transfer \<notin> set (query [Function withdraw_meta [zero_transfer]]) \<and>
   is_amount_constant_zero (transfer_call (Returned None) Raised) = False \<and>
   is_amount_constant_zero
     (transfer_call (Returned None) (Returned [recipient, amount Raised Absent])) = False"
proof -
  have v: "zero_transfer \<in> set (vulnerable_instructions 500 1000
                                  [Function withdraw_meta [zero_transfer]])"
    by (simp add: pipeline_defs withdraw_meta_def zero_transfer_def transfer_call_def
        lacks_reserve_check_def has_global_df_in_amount_def recipient_def amount_def)
  have p: "\<not> is_protected_by_safe_wrapper zero_transfer"
    by (simp add: zero_transfer_def transfer_call_def is_protected_by_safe_wrapper_def
        withdraw_meta_def safe_patterns_def lower_def lower_char_table)
  have g: "\<not> has_post_transfer_revert_guard zero_transfer"
    by (simp add: zero_transfer_def transfer_call_def has_post_transfer_revert_guard_def)
  show ?thesis
    using v p g
      constant_zero_amount_excluded [of zero_transfer
        "[recipient, amount (Returned ''0'') (Present (Returned True))]"
        "[Function withdraw_meta [zero_transfer]]"]
      constant_zero_amount_excluded [of "transfer_call (Returned None) Raised"]
      constant_zero_amount_excluded [of
        "transfer_call (Returned None) (Returned [recipient, amount Raised Absent])"
        "[recipient, amount Raised Absent]"]
    by (simp add: zero_transfer_def transfer_call_def amount_def)
qed

text \<open>\<open>str_in\<close> is the substring test.\<close>

lemma startswith_iff: "startswith s p \<longleftrightarrow> (\<exists>post. s = p @ post)"
  by (induction s p rule: startswith.induct) auto

lemma str_in_iff: "str_in p s \<longleftrightarrow> (\<exists>pre post. s = pre @ p @ post)"
proof (induction s)
  case Nil
  then show ?case by auto
next
  case (Cons c cs)
  show ?case
  proof
    assume "str_in p (c # cs)"
    then consider "startswith (c # cs) p" | "str_in p cs" by auto
    then show "\<exists>pre post. c # cs = pre @ p @ post"
    proof cases
      case 1
      then obtain post where "c # cs = p @ post" by (auto simp: startswith_iff)
      then have "c # cs = [] @ p @ post" by simp
      then show ?thesis by blast
    next
      case 2
      then obtain pre post where "cs = pre @ p @ post" using Cons.IH by blast
      then have "c # cs = (c # pre) @ p @ post" by simp
      then show ?thesis by blast
    qed
  next
    assume "\<exists>pre post. c # cs = pre @ p @ post"
    then obtain pre post where eq: "c # cs = pre @ p @ post" by blast
    show "str_in p (c # cs)"
    proof (cases pre)
      case Nil
      with eq have "startswith (c # cs) p" by (auto simp: startswith_iff)
      then show ?thesis by simp
    next
      case (Cons d pre')
      with eq have "cs = pre' @ p @ post" by simp
      then have "str_in p cs" using Cons.IH by blast
      then show ?thesis by simp
    qed
  qed
qed

lemma safe_patterns_lower:
  "pattern \<in> set safe_patterns \<Longrightarrow> lower pattern = pattern"
  by (auto simp: safe_patterns_def lower_def lower_char_table)

text \<open>
  C6. When \<open>get_parent\<close> returns a function whose lowercased name contains one of
  \<^verbatim>\<open>safetransfer\<close>, \<^verbatim>\<open>safewithdraw\<close>, \<^verbatim>\<open>safemint\<close>, \<^verbatim>\<open>safeburn\<close>,
  \<open>is_protected_by_safe_wrapper\<close> is \<open>True\<close> and the instruction is not among the
  findings of \<open>query\<close>. When \<open>get_parent\<close> raises or returns \<^verbatim>\<open>None\<close> it is
  \<open>False\<close>, so this rule keeps the finding.
\<close>

theorem safe_wrapper_excluded:
  "(get_parent ins = Returned (Some f) \<and>
    pattern \<in> set [''safetransfer'', ''safewithdraw'', ''safemint'', ''safeburn''] \<and>
    str_in (lower pattern) (lower (name f)) \<longrightarrow>
      is_protected_by_safe_wrapper ins = True \<and> ins \<notin> set (query all_functions)) \<and>
   (get_parent ins = Raised \<or> get_parent ins = Returned None \<longrightarrow>
      is_protected_by_safe_wrapper ins = False)"
proof -
  have "is_protected_by_safe_wrapper ins"
    if "get_parent ins = Returned (Some f)"
      and "pattern \<in> set [''safetransfer'', ''safewithdraw'', ''safemint'', ''safeburn'']"
      and "str_in (lower pattern) (lower (name f))"
  proof -
    have m: "pattern \<in> set safe_patterns"
      using that(2) by (simp add: safe_patterns_def)
    then have "str_in pattern (lower (name f))"
      using that(3) safe_patterns_lower by simp
    with m that(1) show ?thesis
      unfolding is_protected_by_safe_wrapper_def by (simp del: set_simps) blast
  qed
  moreover have "ins \<notin> set (query all_functions)" if "is_protected_by_safe_wrapper ins"
    using that query_subset_vulnerable [of ins 500 1000 all_functions]
    by (auto simp: query_def)
  moreover have "\<not> is_protected_by_safe_wrapper ins"
    if "get_parent ins = Raised \<or> get_parent ins = Returned None"
    using that by (auto simp: is_protected_by_safe_wrapper_def)
  ultimately show ?thesis by blast
qed

text \<open>
  The transfer inside \<^verbatim>\<open>safeWithdraw\<close> passes the first three stages and the other two
  exclusions, and is removed by the wrapper rule alone.
\<close>

theorem safe_wrapper_excluded_witness:
  "wrapped_transfer \<in> set (vulnerable_instructions 500 1000
                              [Function safe_withdraw_meta [wrapped_transfer]]) \<and>
   \<not> has_post_transfer_revert_guard wrapped_transfer \<and>
   \<not> is_amount_constant_zero wrapped_transfer \<and>
   is_protected_by_safe_wrapper wrapped_transfer = True \<and>
   wrapped_transfer \<notin> set (query [Function safe_withdraw_meta [wrapped_transfer]]) \<and>
   is_protected_by_safe_wrapper (transfer_call Raised (Returned [recipient])) = False \<and>
   is_protected_by_safe_wrapper (transfer_call (Returned None) (Returned [recipient])) = False"
proof -
  have v: "wrapped_transfer \<in> set (vulnerable_instructions 500 1000
                              [Function safe_withdraw_meta [wrapped_transfer]])"
    by (simp add: pipeline_defs safe_withdraw_meta_def wrapped_transfer_def transfer_call_def
        lacks_reserve_check_def has_global_df_in_amount_def recipient_def amount_def)
  have g: "\<not> has_post_transfer_revert_guard wrapped_transfer"
    by (simp add: wrapped_transfer_def transfer_call_def has_post_transfer_revert_guard_def)
  have z: "\<not> is_amount_constant_zero wrapped_transfer"
    by (simp add: wrapped_transfer_def transfer_call_def is_amount_constant_zero_def
        amount_def strip_def is_space_def)
  have s: "str_in (lower ''safewithdraw'') (lower (name safe_withdraw_meta))"
    by (simp add: safe_withdraw_meta_def lower_def lower_char_table)
  show ?thesis
    using v g z s
      safe_wrapper_excluded [of wrapped_transfer safe_withdraw_meta "''safewithdraw''"
        "[Function safe_withdraw_meta [wrapped_transfer]]"]
      safe_wrapper_excluded [of "transfer_call Raised (Returned [recipient])"]
      safe_wrapper_excluded [of "transfer_call (Returned None) (Returned [recipient])"]
    by (simp add: wrapped_transfer_def transfer_call_def)
qed

text \<open>What \<open>strip\<close> leaves is \<^verbatim>\<open>0\<close> exactly for a \<^verbatim>\<open>0\<close> between runs of whitespace.\<close>
lemma not_space_zero: "\<not> is_space CHR ''0''"
  by (simp add: is_space_def)

lemma strip_eq_zero_iff:
  "strip s = ''0'' \<longleftrightarrow>
     (\<exists>l r. s = l @ ''0'' @ r \<and> (\<forall>c \<in> set l. is_space c) \<and> (\<forall>c \<in> set r. is_space c))"
proof
  assume a: "strip s = ''0''"
  define m where "m = dropWhile is_space s"
  define t where "t = takeWhile is_space (rev m)"
  have "rev (dropWhile is_space (rev m)) = ''0''"
    using a by (simp add: strip_def m_def)
  then have d: "dropWhile is_space (rev m) = ''0''"
    by (metis rev_rev_ident rev_singleton_conv)
  have "rev m = t @ dropWhile is_space (rev m)"
    by (simp add: t_def)
  with d have "rev m = t @ ''0''" by simp
  then have "m = ''0'' @ rev t"
    by (metis rev_append rev_rev_ident rev_singleton_conv)
  moreover have "s = takeWhile is_space s @ m"
    by (simp add: m_def)
  ultimately have "s = takeWhile is_space s @ ''0'' @ rev t" by simp
  moreover have "\<forall>c \<in> set (takeWhile is_space s). is_space c"
    by (auto dest: set_takeWhileD)
  moreover have "\<forall>c \<in> set (rev t). is_space c"
    by (auto simp: t_def dest: set_takeWhileD)
  ultimately show "\<exists>l r. s = l @ ''0'' @ r \<and> (\<forall>c \<in> set l. is_space c) \<and> (\<forall>c \<in> set r. is_space c)"
    by blast
next
  assume "\<exists>l r. s = l @ ''0'' @ r \<and> (\<forall>c \<in> set l. is_space c) \<and> (\<forall>c \<in> set r. is_space c)"
  then obtain l r where s: "s = l @ ''0'' @ r"
    and l: "\<forall>c \<in> set l. is_space c" and r: "\<forall>c \<in> set r. is_space c" by blast
  have "dropWhile is_space s = ''0'' @ r"
    using s l not_space_zero by (simp add: dropWhile_append3)
  then have "rev (dropWhile is_space s) = rev r @ ''0''" by simp
  moreover have "dropWhile is_space (rev r @ ''0'') = ''0''"
    using r not_space_zero by (simp add: dropWhile_append3)
  ultimately show "strip s = ''0''" by (simp add: strip_def)
qed

text \<open>
  C10. When the source text of the last argument can be read, \<open>is_amount_constant_zero\<close>
  is \<open>True\<close> exactly when the text stripped of surrounding whitespace equals \<^verbatim>\<open>0\<close>
  or the text contains \<^verbatim>\<open>uint256).max\<close> at any position, so
  \<^verbatim>\<open>type(uint256).max - fee\<close> is excluded too.
\<close>

theorem uint256_max_substring_excluded:
  assumes "get_args ins = Returned args" and "args \<noteq> []"
    and "arg_source_code (last args) = Returned source"
  shows "(is_amount_constant_zero ins \<longleftrightarrow>
            strip source = ''0'' \<or> str_in ''uint256).max'' source) \<and>
         (str_in ''uint256).max'' source \<longleftrightarrow>
            (\<exists>pre post. source = pre @ ''uint256).max'' @ post)) \<and>
         (strip source = ''0'' \<longleftrightarrow>
            (\<exists>l r. source = l @ ''0'' @ r \<and>
                   (\<forall>c \<in> set l. is_space c) \<and> (\<forall>c \<in> set r. is_space c)))"
proof -
  have "is_amount_constant_zero ins \<longleftrightarrow>
          strip source = ''0'' \<or> str_in ''uint256).max'' source"
    using assms by (simp add: is_amount_constant_zero_def)
  then show ?thesis
    using str_in_iff [of "''uint256).max''" source] strip_eq_zero_iff [of source] by blast
qed

text \<open>The amount \<^verbatim>\<open>type(uint256).max - fee\<close> is excluded although it is not the sentinel.\<close>

theorem uint256_max_substring_excluded_witness:
  "is_amount_constant_zero
     (transfer_call (Returned None)
        (Returned [recipient, amount (Returned ''type(uint256).max - fee'') Absent])) = True \<and>
   strip ''type(uint256).max - fee'' \<noteq> ''0'' \<and>
   str_in ''uint256).max'' ''type(uint256).max - fee''"
proof -
  have s: "str_in ''uint256).max'' ''type(uint256).max - fee''" by simp
  have n: "strip ''type(uint256).max - fee'' \<noteq> ''0''"
    by (simp add: strip_def is_space_def)
  show ?thesis
    using s n uint256_max_substring_excluded [of
        "transfer_call (Returned None)
           (Returned [recipient, amount (Returned ''type(uint256).max - fee'') Absent])"
        "[recipient, amount (Returned ''type(uint256).max - fee'') Absent]"
        "''type(uint256).max - fee''"]
    by (simp add: transfer_call_def amount_def)
qed

text \<open>One step of the successor loop, and the loop as a search for a guard.\<close>

lemma scan_next_instructions_Cons:
  "scan_next_instructions (s # rest) =
     (case next_callee_names s of
        Raised \<Rightarrow> Raised
      | Returned names \<Rightarrow>
          if is_revert_guard s then Returned True else scan_next_instructions rest)"
proof (cases "next_callee_names s")
  case Raised
  then show ?thesis by simp
next
  case names: (Returned names)
  show ?thesis
  proof (cases "next_source_code s")
    case Raised
    with names show ?thesis by (simp add: is_revert_guard_def)
  next
    case (Returned source)
    with names show ?thesis by (simp add: is_revert_guard_def)
  qed
qed

lemma is_revert_guard_callees: "is_revert_guard s \<Longrightarrow> next_callee_names s \<noteq> Raised"
  by (auto simp: is_revert_guard_def)

lemma scan_next_instructions_iff:
  "scan_next_instructions succs = Returned True \<longleftrightarrow>
     (\<exists>before s after. succs = before @ s # after \<and>
        (\<forall>b \<in> set before. next_callee_names b \<noteq> Raised) \<and> is_revert_guard s)"
proof (induction succs)
  case Nil
  show ?case by simp
next
  case (Cons a rest)
  show ?case
  proof
    assume l: "scan_next_instructions (a # rest) = Returned True"
    then obtain names where n: "next_callee_names a = Returned names"
      by (cases "next_callee_names a")
          (simp_all add: scan_next_instructions_Cons del: scan_next_instructions.simps)
    show "\<exists>before s after. a # rest = before @ s # after \<and>
        (\<forall>b \<in> set before. next_callee_names b \<noteq> Raised) \<and> is_revert_guard s"
    proof (cases "is_revert_guard a")
      case True
      then have "a # rest = [] @ a # rest \<and>
          (\<forall>b \<in> set []. next_callee_names b \<noteq> Raised) \<and> is_revert_guard a"
        by simp
      then show ?thesis by blast
    next
      case False
      with l n have "scan_next_instructions rest = Returned True"
        by (simp add: scan_next_instructions_Cons del: scan_next_instructions.simps)
      then obtain before s after where r: "rest = before @ s # after"
        and b: "\<forall>b \<in> set before. next_callee_names b \<noteq> Raised" and g: "is_revert_guard s"
        using Cons.IH by blast
      from r b g n have "a # rest = (a # before) @ s # after \<and>
          (\<forall>b \<in> set (a # before). next_callee_names b \<noteq> Raised) \<and> is_revert_guard s"
        by simp
      then show ?thesis by blast
    qed
  next
    assume "\<exists>before s after. a # rest = before @ s # after \<and>
        (\<forall>b \<in> set before. next_callee_names b \<noteq> Raised) \<and> is_revert_guard s"
    then obtain before s after where e: "a # rest = before @ s # after"
      and b: "\<forall>b \<in> set before. next_callee_names b \<noteq> Raised" and g: "is_revert_guard s"
      by blast
    show "scan_next_instructions (a # rest) = Returned True"
    proof (cases before)
      case Nil
      with e have "s = a" by simp
      with g is_revert_guard_callees [of a] show ?thesis
        by (cases "next_callee_names a")
          (simp_all add: scan_next_instructions_Cons del: scan_next_instructions.simps)
    next
      case (Cons a' before')
      with e have r: "rest = before' @ s # after" and "a' = a" by simp_all
      with b Cons have n: "next_callee_names a \<noteq> Raised"
        and b': "\<forall>b \<in> set before'. next_callee_names b \<noteq> Raised" by simp_all
      from r b' g have "scan_next_instructions rest = Returned True"
        using Cons.IH by blast
      with n show ?thesis
        by (cases "next_callee_names a")
          (simp_all add: scan_next_instructions_Cons del: scan_next_instructions.simps)
    qed
  qed
qed

text \<open>
  C9 as stated fails. The successors of a transfer are enumerated, the second one is
  \<^verbatim>\<open>require(success)\<close>, but \<^verbatim>\<open>callee_names()\<close> raises on the first: the loop is left
  through the outer handler and \<open>has_post_transfer_revert_guard\<close> returns \<open>False\<close>.
\<close>

theorem revert_guard_counterexample:
  "next_instructions interrupted_transfer = Returned [opaque_successor, success_require] \<and>
   next_callee_names success_require = Returned [''require''] \<and>
   next_source_code success_require = Returned ''require(success)'' \<and>
   str_in ''success'' (lower ''require(success)'') \<and>
   has_post_transfer_revert_guard interrupted_transfer = False"
  by (simp add: interrupted_transfer_def opaque_successor_def success_require_def
      has_post_transfer_revert_guard_def lower_def lower_char_table)

text \<open>
  C9, amended. \<open>has_post_transfer_revert_guard\<close> is \<open>True\<close> exactly when
  \<open>next_instructions\<close> returns and some successor has \<^verbatim>\<open>require\<close> or \<^verbatim>\<open>assert\<close> among
  its callee names and a readable source text that, lowercased, contains \<^verbatim>\<open>success\<close> or
  \<^verbatim>\<open>ok\<close>, and \<open>callee_names\<close> has returned on every successor before it. When
  \<open>next_instructions\<close> raises, it is \<open>False\<close>.
\<close>

theorem revert_guard_iff_callees_read:
  "(has_post_transfer_revert_guard ins = True \<longleftrightarrow>
      (\<exists>before s after names source.
         next_instructions ins = Returned (before @ s # after) \<and>
         (\<forall>b \<in> set before. next_callee_names b \<noteq> Raised) \<and>
         next_callee_names s = Returned names \<and>
         (''require'' \<in> set names \<or> ''assert'' \<in> set names) \<and>
         next_source_code s = Returned source \<and>
         (str_in ''success'' (lower source) \<or> str_in ''ok'' (lower source)))) \<and>
   (next_instructions ins = Raised \<longrightarrow> has_post_transfer_revert_guard ins = False)"
proof (cases "next_instructions ins")
  case Raised
  then show ?thesis by (simp add: has_post_transfer_revert_guard_def)
next
  case (Returned succs)
  have "has_post_transfer_revert_guard ins = True \<longleftrightarrow>
          scan_next_instructions succs = Returned True"
    using Returned
    by (cases "scan_next_instructions succs") (simp_all add: has_post_transfer_revert_guard_def)
  also have "\<dots> \<longleftrightarrow>
      (\<exists>before s after. succs = before @ s # after \<and>
        (\<forall>b \<in> set before. next_callee_names b \<noteq> Raised) \<and> is_revert_guard s)"
    by (rule scan_next_instructions_iff)
  also have "\<dots> \<longleftrightarrow>
      (\<exists>before s after names source.
         next_instructions ins = Returned (before @ s # after) \<and>
         (\<forall>b \<in> set before. next_callee_names b \<noteq> Raised) \<and>
         next_callee_names s = Returned names \<and>
         (''require'' \<in> set names \<or> ''assert'' \<in> set names) \<and>
         next_source_code s = Returned source \<and>
         (str_in ''success'' (lower source) \<or> str_in ''ok'' (lower source)))"
    unfolding is_revert_guard_def Returned outcome.inject by blast
  finally show ?thesis using Returned by simp
qed

text \<open>
  \<^verbatim>\<open>require(token.balanceOf(x) > 0)\<close> counts as a guard: \<^verbatim>\<open>token\<close> contains
  \<^verbatim>\<open>ok\<close>, and \<^verbatim>\<open>success\<close> does not occur. A transfer whose successors cannot be
  enumerated has no guard.
\<close>

theorem revert_guard_iff_callees_read_witness:
  "has_post_transfer_revert_guard guarded_transfer = True \<and>
   next_instructions guarded_transfer = Returned [balance_require] \<and>
   next_callee_names balance_require = Returned [''require'', ''balanceOf''] \<and>
   next_source_code balance_require = Returned ''require(token.balanceOf(x) > 0)'' \<and>
   str_in ''ok'' (lower ''require(token.balanceOf(x) > 0)'') \<and>
   \<not> str_in ''success'' (lower ''require(token.balanceOf(x) > 0)'') \<and>
   next_instructions unlisted_transfer = Raised \<and>
   has_post_transfer_revert_guard unlisted_transfer = False"
proof -
  have ok: "str_in ''ok'' (lower ''require(token.balanceOf(x) > 0)'')"
    by (simp add: lower_def lower_char_table)
  have ns: "\<not> str_in ''success'' (lower ''require(token.balanceOf(x) > 0)'')"
    by (simp add: lower_def lower_char_table)
  have n: "next_instructions guarded_transfer = Returned ([] @ balance_require # [])"
    by (simp add: guarded_transfer_def)
  have c: "next_callee_names balance_require = Returned [''require'', ''balanceOf'']"
    by (simp add: balance_require_def)
  have t: "next_source_code balance_require = Returned ''require(token.balanceOf(x) > 0)''"
    by (simp add: balance_require_def)
  have r: "next_instructions unlisted_transfer = Raised"
    by (simp add: unlisted_transfer_def)
  have m: "''require'' \<in> set [''require'', ''balanceOf'']" by simp
  have e: "\<forall>b \<in> set []. next_callee_names b \<noteq> Raised" by simp
  have "has_post_transfer_revert_guard guarded_transfer = True"
    using revert_guard_iff_callees_read [of guarded_transfer] n e c m t ok by blast
  moreover have "has_post_transfer_revert_guard unlisted_transfer = False"
    using revert_guard_iff_callees_read [of unlisted_transfer] r by simp
  ultimately show ?thesis using ok ns n c t r by simp
qed

text \<open>One step of the loop, and the loop as a search for evidence.\<close>

lemma scan_backward_flow_Cons:
  "scan_backward_flow (p # rest) = (\<not> reserve_evidence p \<and> scan_backward_flow rest)"
proof (cases "dfp_source_code p")
  case Raised
  then show ?thesis by (simp add: reserve_evidence_def)
next
  case (Returned code)
  then show ?thesis
    unfolding scan_backward_flow.simps reserve_evidence_def Let_def
    by (simp only: outcome.case outcome.inject simp_thms ex_simps split: if_split) blast
qed

lemma scan_backward_flow_iff:
  "scan_backward_flow flow = False \<longleftrightarrow> (\<exists>p \<in> set flow. reserve_evidence p)"
proof (induction flow)
  case Nil
  show ?case by simp
next
  case (Cons p rest)
  then show ?case
    by (simp only: scan_backward_flow_Cons set_simps bex_simps simp_thms de_Morgan_conj
        insert_iff)
qed

text \<open>Points whose source text cannot be read do not change the result.\<close>

lemma scan_backward_flow_skip:
  "scan_backward_flow flow =
     scan_backward_flow (filter (\<lambda>p. dfp_source_code p \<noteq> Raised) flow)"
proof (induction flow)
  case Nil
  show ?case by simp
next
  case (Cons p rest)
  show ?case
  proof (cases "dfp_source_code p")
    case Raised
    then have "\<not> reserve_evidence p" by (simp add: reserve_evidence_def)
    with Raised Cons.IH show ?thesis
      by (simp only: scan_backward_flow_Cons filter.simps simp_thms if_False)
  next
    case (Returned code)
    with Cons.IH show ?thesis
      by (simp only: scan_backward_flow_Cons filter.simps outcome.distinct simp_thms if_True)
  qed
qed

lemma address_this_contains_this:
  "str_in ''address(this)'' code \<Longrightarrow> str_in ''this'' code"
proof -
  assume "str_in ''address(this)'' code"
  then obtain pre post where "code = pre @ ''address(this)'' @ post"
    unfolding str_in_iff by blast
  then have "code = (pre @ ''address('') @ ''this'' @ ('')'' @ post)" by simp
  then show ?thesis unfolding str_in_iff by blast
qed

lemma reserve_evidence_this:
  "reserve_evidence p \<longleftrightarrow>
     (\<exists>code. dfp_source_code p = Returned code \<and>
        (\<exists>pattern \<in> set [''balanceOf'', ''getBalance'', ''available'', ''liquidity'',
                            ''reserves'', ''totalAssets'', ''getReserves''].
           str_in (lower pattern) (lower code)) \<and>
        str_in ''this'' code)"
  unfolding reserve_evidence_def reserve_check_patterns_def
  using address_this_contains_this by blast

lemma own_balance_evidence:
  "reserve_evidence (DfPoint (Returned ''require(token.balanceOf(address(this)) >= amount)''))"
proof -
  have "str_in (lower ''balanceOf'') (lower ''require(token.balanceOf(address(this)) >= amount)'')"
    by (simp add: lower_def lower_char_table)
  moreover have "''balanceOf'' \<in> set reserve_check_patterns"
    by (simp add: reserve_check_patterns_def)
  moreover have "str_in ''this'' ''require(token.balanceOf(address(this)) >= amount)''"
    by simp
  ultimately show ?thesis
    unfolding reserve_evidence_def by (simp only: df_point.sel outcome.inject) blast
qed

text \<open>
  C3. \<open>lacks_reserve_check\<close> is \<open>True\<close> when \<open>get_args\<close> raises and, for an
  instruction with at least one argument, when \<open>backward_df\<close> on the last argument
  raises. When the trace is returned, the result is the one the loop gives on the points
  whose source text can be read: a point whose \<open>source_code\<close> raises is skipped, and
  removing it from any position of the trace leaves the result unchanged.
\<close>

theorem trace_failure_marks_vulnerable:
  "(get_args ins = Raised \<longrightarrow> lacks_reserve_check ins = True) \<and>
   (get_args ins = Returned args \<and> args \<noteq> [] \<and> backward_df (last args) = Raised \<longrightarrow>
      lacks_reserve_check ins = True) \<and>
   (get_args ins = Returned args \<and> args \<noteq> [] \<and> backward_df (last args) = Returned flow \<longrightarrow>
      lacks_reserve_check ins =
        scan_backward_flow (filter (\<lambda>p. dfp_source_code p \<noteq> Raised) flow)) \<and>
   (dfp_source_code p = Raised \<longrightarrow>
      scan_backward_flow (pre @ p # post) = scan_backward_flow (pre @ post))"
proof -
  have "scan_backward_flow (pre @ p # post) = scan_backward_flow (pre @ post)"
    if "dfp_source_code p = Raised"
    using that scan_backward_flow_skip [of "pre @ p # post"]
      scan_backward_flow_skip [of "pre @ post"]
    by simp
  moreover have "lacks_reserve_check ins =
        scan_backward_flow (filter (\<lambda>p. dfp_source_code p \<noteq> Raised) flow)"
    if "get_args ins = Returned args" "args \<noteq> []" "backward_df (last args) = Returned flow"
    using that scan_backward_flow_skip [of flow] by (simp add: lacks_reserve_check_def)
  moreover have "lacks_reserve_check ins" if "get_args ins = Raised"
    using that by (simp add: lacks_reserve_check_def)
  moreover have "lacks_reserve_check ins"
    if "get_args ins = Returned args" "args \<noteq> []" "backward_df (last args) = Raised"
    using that by (simp add: lacks_reserve_check_def)
  ultimately show ?thesis by blast
qed

text \<open>
  A failing \<open>get_args\<close>, a failing \<open>backward_df\<close>, a trace of one unreadable point,
  and an unreadable point followed by a check of the contract's own balance.
\<close>

theorem trace_failure_marks_vulnerable_witness:
  "lacks_reserve_check (transfer_call (Returned None) Raised) = True \<and>
   lacks_reserve_check (traced_transfer Raised) = True \<and>
   lacks_reserve_check (traced_transfer (Returned [DfPoint Raised])) = True \<and>
   lacks_reserve_check
     (traced_transfer
        (Returned [DfPoint Raised,
                   DfPoint (Returned ''require(token.balanceOf(address(this)) >= amount)'')]))
     = False \<and>
   scan_backward_flow
     [DfPoint Raised, DfPoint (Returned ''require(token.balanceOf(address(this)) >= amount)'')]
     = scan_backward_flow
         [DfPoint (Returned ''require(token.balanceOf(address(this)) >= amount)'')]"
proof -
  let ?g = "DfPoint (Returned ''require(token.balanceOf(address(this)) >= amount)'')"
  have e: "scan_backward_flow [?g] = False"
    using own_balance_evidence by (simp only: scan_backward_flow_Cons simp_thms)
  have a: "lacks_reserve_check (transfer_call (Returned None) Raised) = True"
    using trace_failure_marks_vulnerable [of "transfer_call (Returned None) Raised"]
    by (simp add: transfer_call_def)
  have b: "lacks_reserve_check (traced_transfer Raised) = True"
    using trace_failure_marks_vulnerable [of "traced_transfer Raised"
        "[recipient, Argument Raised (Returned ''amount'') (Present (Returned True))]"]
    by (simp add: traced_transfer_def transfer_call_def)
  have c: "lacks_reserve_check (traced_transfer (Returned [DfPoint Raised])) = True"
    using trace_failure_marks_vulnerable [of "traced_transfer (Returned [DfPoint Raised])"
        "[recipient, Argument (Returned [DfPoint Raised]) (Returned ''amount'')
                       (Present (Returned True))]" "[DfPoint Raised]"]
    by (simp add: traced_transfer_def transfer_call_def)
  have d: "lacks_reserve_check (traced_transfer (Returned [DfPoint Raised, ?g])) = False"
    using e trace_failure_marks_vulnerable [of "traced_transfer (Returned [DfPoint Raised, ?g])"
        "[recipient, Argument (Returned [DfPoint Raised, ?g]) (Returned ''amount'')
                       (Present (Returned True))]" "[DfPoint Raised, ?g]"]
    by (simp add: traced_transfer_def transfer_call_def del: scan_backward_flow.simps)
  have f: "scan_backward_flow [DfPoint Raised, ?g] = scan_backward_flow [?g]"
    using trace_failure_marks_vulnerable [of _ _ _ "DfPoint Raised" "[]" "[?g]"]
    by (simp del: scan_backward_flow.simps)
  from a b c d f show ?thesis by (simp only: simp_thms)
qed

text \<open>
  C1. The claim counts a dataflow point as reserve evidence only if it refers to the
  contract's own identity, not to an arbitrary address. The loop tests for the substring
  \<^verbatim>\<open>this\<close> instead. On a transfer whose amount traces back to the single point
  \<^verbatim>\<open>uint256 thisAmount = token.balanceOf(msg.sender)\<close>, which reads the caller's
  balance and names the contract nowhere, \<open>lacks_reserve_check\<close> returns \<open>False\<close>
  because \<^verbatim>\<open>thisAmount\<close> contains \<^verbatim>\<open>this\<close>; by the claim it is \<open>True\<close>.
\<close>

theorem reserve_check_accepts_caller_balance:
  "get_args
     (traced_transfer
        (Returned [DfPoint (Returned ''uint256 thisAmount = token.balanceOf(msg.sender)'')])) =
     Returned
       [recipient,
        Argument
          (Returned [DfPoint (Returned ''uint256 thisAmount = token.balanceOf(msg.sender)'')])
          (Returned ''amount'') (Present (Returned True))] \<and>
   lacks_reserve_check
     (traced_transfer
        (Returned [DfPoint (Returned ''uint256 thisAmount = token.balanceOf(msg.sender)'')])) =
     False \<and>
   \<not> spec_self_reference ''uint256 thisAmount = token.balanceOf(msg.sender)''"
proof -
  let ?t = "''uint256 thisAmount = token.balanceOf(msg.sender)''"
  have "str_in (lower ''balanceOf'') (lower ?t)"
    by (simp add: lower_def lower_char_table)
  moreover have "str_in ''this'' ?t" by simp
  ultimately have "reserve_evidence (DfPoint (Returned ?t))"
    unfolding reserve_evidence_this by (simp only: df_point.sel outcome.inject) simp
  then have "scan_backward_flow [DfPoint (Returned ?t)] = False"
    by (simp only: scan_backward_flow_Cons simp_thms)
  then have "lacks_reserve_check (traced_transfer (Returned [DfPoint (Returned ?t)])) = False"
    by (simp add: lacks_reserve_check_def traced_transfer_def transfer_call_def
        del: scan_backward_flow.simps)
  moreover have "\<not> spec_self_reference ?t"
    by (simp add: spec_self_reference_def ident_char_def)
  ultimately show ?thesis
    by (simp add: traced_transfer_def transfer_call_def del: scan_backward_flow.simps)
qed

text \<open>
  C8. The candidate selection of \<open>query\<close> returns the first 500, in the platform's order,
  of the functions that are public or external, neither pure nor view, carry none of the
  modifiers \<^verbatim>\<open>onlyOwner\<close>, \<^verbatim>\<open>nonReentrant\<close>, \<^verbatim>\<open>whenNotPaused\<close>, \<^verbatim>\<open>lock\<close>, are
  named by one of the fourteen configured names, and declare a \<^verbatim>\<open>uint256\<close> parameter.
\<close>

theorem candidate_selection_exact:
  "candidate_functions 500 all_functions =
     take 500
       (filter
          (\<lambda>f. (PUBLIC \<in> set (properties (meta f)) \<or> EXTERNAL \<in> set (properties (meta f))) \<and>
               \<not> (IS_PURE \<in> set (properties (meta f)) \<or> IS_VIEW \<in> set (properties (meta f))) \<and>
               (\<forall>m \<in> set [''onlyOwner'', ''nonReentrant'', ''whenNotPaused'', ''lock''].
                  m \<notin> set (modifier_names (meta f))) \<and>
               name (meta f) \<in>
                 set [''withdraw'', ''redeem'', ''burn'', ''transferFrom'', ''safeWithdraw'',
                      ''exitMarket'', ''borrow'', ''redeemShares'', ''unstake'', ''claim'',
                      ''liquidate'', ''seize'', ''exit'', ''removeLiquidity''] \<and>
               ''uint256'' \<in> set (arg_types (meta f)))
          all_functions) \<and>
   length (candidate_functions 500 all_functions) \<le> 500"
proof -
  have "candidate_functions 500 all_functions =
     take 500
       (filter
          (\<lambda>f. (PUBLIC \<in> set (properties (meta f)) \<or> EXTERNAL \<in> set (properties (meta f))) \<and>
               \<not> (IS_PURE \<in> set (properties (meta f)) \<or> IS_VIEW \<in> set (properties (meta f))) \<and>
               (\<forall>m \<in> set [''onlyOwner'', ''nonReentrant'', ''whenNotPaused'', ''lock''].
                  m \<notin> set (modifier_names (meta f))) \<and>
               name (meta f) \<in>
                 set [''withdraw'', ''redeem'', ''burn'', ''transferFrom'', ''safeWithdraw'',
                      ''exitMarket'', ''borrow'', ''redeemShares'', ''unstake'', ''claim'',
                      ''liquidate'', ''seize'', ''exit'', ''removeLiquidity''] \<and>
               ''uint256'' \<in> set (arg_types (meta f)))
          all_functions)"
    unfolding candidate_functions_def exec_def with_arg_type_def with_one_of_the_names_def
      without_modifier_names_def without_properties_def with_one_property_def filter_filter
    by (rule arg_cong [where f = "take 500"], rule filter_cong [OF refl]) auto
  moreover have "length (candidate_functions 500 all_functions) \<le> 500"
    by (simp add: candidate_functions_def exec_def)
  ultimately show ?thesis by (simp only: simp_thms)
qed

text \<open>Of the seven sample functions exactly \<^verbatim>\<open>withdraw\<close> and \<^verbatim>\<open>redeem\<close> are selected.\<close>

theorem candidate_selection_exact_witness:
  "candidate_functions 500 sample_functions =
     [Function withdraw_meta [traced_transfer (Returned [])],
      Function redeem_meta [redeem_transfer]] \<and>
   length (candidate_functions 500 sample_functions) \<le> 500"
  using candidate_selection_exact [of sample_functions]
  by (simp add: sample_functions_def withdraw_meta_def redeem_meta_def)

text \<open>A larger bound extends what a smaller bound keeps.\<close>

lemma take_le_append: "a \<le> b \<Longrightarrow> \<exists>zs. take b xs = take a xs @ zs"
proof -
  assume "a \<le> b"
  then have "take a xs = take a (take b xs)" by (simp add: min_def)
  then have "take b xs = take a xs @ drop a (take b xs)"
    by (metis append_take_drop_id)
  then show ?thesis by blast
qed

lemma candidate_functions_mono:
  assumes "fc \<le> fc'"
  shows "\<exists>zs. candidate_functions fc' fs = candidate_functions fc fs @ zs"
  unfolding candidate_functions_def exec_def using assms by (rule take_le_append)

lemma extracted_mono:
  assumes "fc \<le> fc'" and "ic \<le> ic'"
  shows "\<exists>zs. exec ic' (instructions (candidate_functions fc' fs)) =
              exec ic (instructions (candidate_functions fc fs)) @ zs"
proof -
  obtain cs where c: "candidate_functions fc' fs = candidate_functions fc fs @ cs"
    using candidate_functions_mono [OF assms(1)] by blast
  let ?small = "instructions (candidate_functions fc fs)"
  let ?large = "instructions (candidate_functions fc' fs)"
  have l: "?large = ?small @ instructions cs"
    by (simp add: instructions_def c)
  obtain zs where z: "take ic' ?large = take ic ?large @ zs"
    using take_le_append [OF assms(2)] by blast
  have "take ic ?large = take ic ?small @ take (ic - length ?small) (instructions cs)"
    by (simp add: l)
  then have "take ic' ?large =
      take ic ?small @ (take (ic - length ?small) (instructions cs) @ zs)"
    using z by simp
  then show ?thesis unfolding exec_def by blast
qed

text \<open>
  C7. With a larger bound on the candidate functions and a larger bound on the extracted
  instructions, \<open>query\<close> on the same contract returns the findings of the smaller bounds
  followed by further ones: findings are added, never removed.
\<close>

theorem caps_monotone:
  assumes "function_cap \<le> function_cap'" and "instruction_cap \<le> instruction_cap'"
  shows "(\<exists>more. query_with_caps function_cap' instruction_cap' all_functions =
                  query_with_caps function_cap instruction_cap all_functions @ more) \<and>
         set (query_with_caps function_cap instruction_cap all_functions)
           \<subseteq> set (query_with_caps function_cap' instruction_cap' all_functions)"
proof -
  obtain zs where
    "exec instruction_cap' (instructions (candidate_functions function_cap' all_functions)) =
     exec instruction_cap (instructions (candidate_functions function_cap all_functions)) @ zs"
    using extracted_mono [OF assms] by blast
  then have "\<exists>more. query_with_caps function_cap' instruction_cap' all_functions =
                  query_with_caps function_cap instruction_cap all_functions @ more"
    by (simp add: query_with_caps_def vulnerable_instructions_def
        transfer_and_burn_instructions_def)
  then show ?thesis by auto
qed

text \<open>The two sample transfers pass every stage.\<close>

lemma traced_transfer_flagged:
  "lacks_reserve_check (traced_transfer (Returned [])) \<and>
   has_global_df_in_amount (traced_transfer (Returned [])) \<and>
   \<not> is_protected_by_safe_wrapper (traced_transfer (Returned [])) \<and>
   \<not> has_post_transfer_revert_guard (traced_transfer (Returned [])) \<and>
   \<not> is_amount_constant_zero (traced_transfer (Returned [])) \<and>
   callee_names (traced_transfer (Returned [])) = [''transfer'']"
  by (simp add: traced_transfer_def transfer_call_def lacks_reserve_check_def
      has_global_df_in_amount_def is_protected_by_safe_wrapper_def
      has_post_transfer_revert_guard_def is_amount_constant_zero_def withdraw_meta_def
      safe_patterns_def lower_def lower_char_table strip_def is_space_def recipient_def)

lemma redeem_transfer_flagged:
  "lacks_reserve_check redeem_transfer \<and>
   has_global_df_in_amount redeem_transfer \<and>
   \<not> is_protected_by_safe_wrapper redeem_transfer \<and>
   \<not> has_post_transfer_revert_guard redeem_transfer \<and>
   \<not> is_amount_constant_zero redeem_transfer \<and>
   callee_names redeem_transfer = [''transferFrom'']"
  by (simp add: redeem_transfer_def lacks_reserve_check_def
      has_global_df_in_amount_def is_protected_by_safe_wrapper_def
      has_post_transfer_revert_guard_def is_amount_constant_zero_def redeem_meta_def
      safe_patterns_def reserve_check_patterns_def lower_def lower_char_table strip_def
      is_space_def recipient_def)

lemma sample_candidates:
  "candidate_functions n sample_functions =
     take n [Function withdraw_meta [traced_transfer (Returned [])],
             Function redeem_meta [redeem_transfer]]"
  by (simp add: candidate_functions_def exec_def with_arg_type_def with_one_of_the_names_def
      without_modifier_names_def without_properties_def with_one_property_def
      sample_functions_def withdraw_meta_def redeem_meta_def)

lemma sample_query:
  "query_with_caps (Suc 0) (Suc 0) sample_functions = [traced_transfer (Returned [])] \<and>
   query_with_caps 2 2 sample_functions = [traced_transfer (Returned []), redeem_transfer]"
  using traced_transfer_flagged redeem_transfer_flagged
  by (simp add: query_with_caps_def vulnerable_instructions_def
      transfer_and_burn_instructions_def sample_candidates exec_def instructions_def)

text \<open>
  On the sample contract, bounds of one function and one instruction give one finding and
  bounds of two give both; the module's bounds 500 and 1000 against 600 and 2000.
\<close>

theorem caps_monotone_witness:
  "Suc 0 \<le> 2 \<and>
   query_with_caps (Suc 0) (Suc 0) sample_functions = [traced_transfer (Returned [])] \<and>
   query_with_caps 2 2 sample_functions = [traced_transfer (Returned []), redeem_transfer] \<and>
   set (query_with_caps (Suc 0) (Suc 0) sample_functions)
     \<subseteq> set (query_with_caps 2 2 sample_functions) \<and>
   set (query sample_functions) \<subseteq> set (query_with_caps 600 2000 sample_functions)"
proof -
  have a: "Suc 0 \<le> 2" by simp
  have b: "(500::nat) \<le> 600" and c: "(1000::nat) \<le> 2000" by simp_all
  show ?thesis
    using a sample_query caps_monotone [OF a a, of sample_functions]
      caps_monotone [OF b c, of sample_functions]
    by (simp only: query_def simp_thms)
qed

end
